theory Spec2Isabelle
  imports Complex_Main
begin

section \<open>Data of the virtual keyboard\<close>

text \<open>
  The repository holds four scripts. Three of them (\<^verbatim>\<open>virtual_keyboard.py\<close>,
  \<^verbatim>\<open>test_opencv.py\<close>, \<^verbatim>\<open>enhanced_demo.py\<close>) lay the keys out on a grid described by
  the same six attributes and keep the typed text in \<^verbatim>\<open>typed_text\<close>; the fourth
  (\<^verbatim>\<open>simple_demo.py\<close>) keeps a list of key rectangles. Python integers are \<open>int\<close>,
  Python floats are idealised as \<open>real\<close> (exact arithmetic), strings are \<open>string\<close>,
  and \<^verbatim>\<open>None\<close> is \<open>None\<close>. Camera frames, drawing and console output are not
  modelled: no method reads them back.
\<close>

datatype error =
  SystemExit          \<comment> \<open>raised by \<^verbatim>\<open>exit()\<close>\<close>
| InjectionFailure    \<comment> \<open>any exception raised inside \<^verbatim>\<open>pyautogui.press\<close>\<close>

text \<open>The attributes shared by the grid classes; this is all that
  \<^verbatim>\<open>test_opencv.SimpleVirtualKeyboard\<close> has.\<close>

record grid_keyboard =
  keyboard_layout :: "string list list"
  key_width :: int
  key_height :: int
  key_margin :: int
  keyboard_start_x :: int
  keyboard_start_y :: int
  typed_text :: string

text \<open>\<^verbatim>\<open>enhanced_demo.EnhancedVirtualKeyboard\<close>.\<close>

record enhanced_keyboard = grid_keyboard +
  current_key :: "string option"
  mouse_pos :: "int \<times> int"

text \<open>
  \<^verbatim>\<open>virtual_keyboard.VirtualKeyboard\<close>. The last field is not an attribute of the
  object: it is the key-injection sink as seen from outside, the list of calls made to
  \<^verbatim>\<open>pyautogui.press\<close> so far, each with the clock reading of the \<^verbatim>\<open>type_key\<close> call
  that made it and the argument it passed. One entry is one emitted key event.
\<close>

record virtual_keyboard = grid_keyboard +
  touch_threshold :: real
  last_key_time :: real
  key_press_delay :: real
  current_key :: "string option"
  press_calls :: "(real \<times> string) list"

section \<open>Resolving a position to a key\<close>

text \<open>
  \<^verbatim>\<open>get_key_at_position\<close> is the same text in the three grid classes: two nested
  \<^verbatim>\<open>for ... in enumerate(...)\<close> loops that return at the first key whose rectangle
  holds the point. The inner loop is \<open>key_in_row\<close>, the outer one \<open>key_in_rows\<close>;
  the indices count up from where \<^verbatim>\<open>enumerate\<close> starts them.
\<close>

fun key_in_row ::
  "'a grid_keyboard_scheme \<Rightarrow> int \<Rightarrow> int \<Rightarrow> nat \<Rightarrow> nat \<Rightarrow> string list \<Rightarrow> string option" where
  "key_in_row kb x y row_idx col_idx [] = None"
| "key_in_row kb x y row_idx col_idx (key # row) =
     (let key_x = keyboard_start_x kb + int col_idx * (key_width kb + key_margin kb);
          key_y = keyboard_start_y kb + int row_idx * (key_height kb + key_margin kb)
      in if (key_x \<le> x \<and> x \<le> key_x + key_width kb) \<and>
            (key_y \<le> y \<and> y \<le> key_y + key_height kb)
         then Some key
         else key_in_row kb x y row_idx (Suc col_idx) row)"

fun key_in_rows ::
  "'a grid_keyboard_scheme \<Rightarrow> int \<Rightarrow> int \<Rightarrow> nat \<Rightarrow> string list list \<Rightarrow> string option" where
  "key_in_rows kb x y row_idx [] = None"
| "key_in_rows kb x y row_idx (row # rows) =
     (case key_in_row kb x y row_idx 0 row of
        Some key \<Rightarrow> Some key
      | None \<Rightarrow> key_in_rows kb x y (Suc row_idx) rows)"

definition get_key_at_position :: "'a grid_keyboard_scheme \<Rightarrow> int \<Rightarrow> int \<Rightarrow> string option" where
  "get_key_at_position kb x y = key_in_rows kb x y 0 (keyboard_layout kb)"

section \<open>Typing a key (virtual\_keyboard.py)\<close>

text \<open>
  \<^verbatim>\<open>str.lower\<close> on the ASCII letters; every other character is kept (the labels of
  the layouts are ASCII).
\<close>

definition lower_char :: "char \<Rightarrow> char" where
  "lower_char c =
     (let n = (of_char c :: nat) in if 65 \<le> n \<and> n \<le> 90 then char_of (n + 32) else c)"

definition lower :: "string \<Rightarrow> string" where
  "lower s = map lower_char s"

text \<open>The argument that the \<^verbatim>\<open>try\<close> block of \<^verbatim>\<open>type_key\<close> hands to
  \<^verbatim>\<open>pyautogui.press\<close>, by its three branches.\<close>

definition press_argument :: "string \<Rightarrow> string" where
  "press_argument key =
     (if key = ''SPACE'' then ''space''
      else if key = ''BACK'' then ''backspace''
      else lower key)"

text \<open>
  \<^verbatim>\<open>type_key\<close>. The clock reading \<^verbatim>\<open>time.time()\<close> is the argument
  \<open>current_time\<close>; the behaviour of \<^verbatim>\<open>pyautogui.press\<close> is the argument \<open>press\<close>,
  which returns or raises. The bare \<^verbatim>\<open>except: pass\<close> is the \<open>case\<close> with the same
  result on both sides.
\<close>

definition type_key ::
  "(string \<Rightarrow> error + unit) \<Rightarrow> real \<Rightarrow> string \<Rightarrow> virtual_keyboard \<Rightarrow> error + virtual_keyboard" where
  "type_key press current_time key kb =
     (if current_time - last_key_time kb > key_press_delay kb then
        let kb1 =
              (if key = ''SPACE'' then kb\<lparr>typed_text := typed_text kb @ '' ''\<rparr>
               else if key = ''BACK'' then
                 (if typed_text kb \<noteq> [] then kb\<lparr>typed_text := butlast (typed_text kb)\<rparr>
                  else kb)
               else kb\<lparr>typed_text := typed_text kb @ key\<rparr>);
            kb2 = kb1\<lparr>press_calls := press_calls kb1 @ [(current_time, press_argument key)]\<rparr>;
            kb3 = (case press (press_argument key) of
                     Inl e \<Rightarrow> kb2
                   | Inr u \<Rightarrow> kb2)
        in Inr (kb3\<lparr>last_key_time := current_time\<rparr>)
      else Inr kb)"

section \<open>The frame loop (virtual\_keyboard.py)\<close>

text \<open>
  What the loop reads for one detected hand: the normalised coordinates \<open>(x, y)\<close> of
  landmark 4 (thumb tip) and landmark 8 (index tip), the two frames that
  \<^verbatim>\<open>get_index_finger_position\<close> and \<^verbatim>\<open>is_finger_touching_thumb\<close> read from the camera
  for their dimensions (\<open>Some (h, w)\<close>, or \<open>None\<close> when \<^verbatim>\<open>ret\<close> is false), and the
  clock reading that \<^verbatim>\<open>type_key\<close> gets if it is called.
\<close>

record landmarks =
  thumb_tip :: "real \<times> real"
  index_tip :: "real \<times> real"

record hand_sample = landmarks +
  position_read :: "(int \<times> int) option"
  touch_read :: "(int \<times> int) option"
  clock :: real

text \<open>\<^verbatim>\<open>int(...)\<close> of a float truncates towards zero.\<close>

definition py_int :: "real \<Rightarrow> int" where
  "py_int r = (if 0 \<le> r then \<lfloor>r\<rfloor> else \<lceil>r\<rceil>)"

definition frame_shape :: "(int \<times> int) option \<Rightarrow> int \<times> int" where
  "frame_shape r = (case r of Some (h, w) \<Rightarrow> (h, w) | None \<Rightarrow> (720, 1280))"

definition calculate_distance :: "real \<times> real \<Rightarrow> real \<times> real \<Rightarrow> real" where
  "calculate_distance point1 point2 =
     sqrt ((fst point1 - fst point2)\<^sup>2 + (snd point1 - snd point2)\<^sup>2)"

definition is_finger_touching_thumb :: "virtual_keyboard \<Rightarrow> 'a hand_sample_scheme \<Rightarrow> bool" where
  "is_finger_touching_thumb kb hs =
     (let (h, w) = frame_shape (touch_read hs);
          thumb_pos = (fst (thumb_tip hs) * real_of_int w, snd (thumb_tip hs) * real_of_int h);
          index_pos = (fst (index_tip hs) * real_of_int w, snd (index_tip hs) * real_of_int h);
          distance = calculate_distance thumb_pos index_pos
      in distance < touch_threshold kb)"

definition get_index_finger_position :: "'a hand_sample_scheme \<Rightarrow> int \<times> int" where
  "get_index_finger_position hs =
     (let (h, w) = frame_shape (position_read hs)
      in (py_int (fst (index_tip hs) * real_of_int w), py_int (snd (index_tip hs) * real_of_int h)))"

text \<open>The body of \<^verbatim>\<open>for hand_landmarks in results.multi_hand_landmarks\<close>.\<close>

definition process_hand ::
  "(string \<Rightarrow> error + unit) \<Rightarrow> hand_sample \<Rightarrow> virtual_keyboard \<Rightarrow> error + virtual_keyboard" where
  "process_hand press hs kb =
     (let index_pos = get_index_finger_position hs;
          kb1 = kb\<lparr>current_key := get_key_at_position kb (fst index_pos) (snd index_pos)\<rparr>
      in if is_finger_touching_thumb kb1 hs then
           (case current_key kb1 of
              None \<Rightarrow> Inr kb1
            | Some key \<Rightarrow> if key \<noteq> [] then type_key press (clock hs) key kb1 else Inr kb1)
         else Inr kb1)"

fun process_hands ::
  "(string \<Rightarrow> error + unit) \<Rightarrow> hand_sample list \<Rightarrow> virtual_keyboard \<Rightarrow> error + virtual_keyboard" where
  "process_hands press [] kb = Inr kb"
| "process_hands press (hs # rest) kb =
     (case process_hand press hs kb of
        Inl e \<Rightarrow> Inl e
      | Inr kb' \<Rightarrow> process_hands press rest kb')"

text \<open>One pass of the \<^verbatim>\<open>while\<close> loop of \<^verbatim>\<open>run\<close>; a frame is the list of hands
  detected in it (empty when \<^verbatim>\<open>multi_hand_landmarks\<close> is \<^verbatim>\<open>None\<close>).\<close>

definition process_frame ::
  "(string \<Rightarrow> error + unit) \<Rightarrow> hand_sample list \<Rightarrow> virtual_keyboard \<Rightarrow> error + virtual_keyboard" where
  "process_frame press hands kb = process_hands press hands (kb\<lparr>current_key := None\<rparr>)"

text \<open>\<^verbatim>\<open>run\<close> over the frames captured before the loop is left.\<close>

fun run ::
  "(string \<Rightarrow> error + unit) \<Rightarrow> hand_sample list list \<Rightarrow> virtual_keyboard \<Rightarrow> error + virtual_keyboard" where
  "run press [] kb = Inr kb"
| "run press (frame # frames) kb =
     (case process_frame press frame kb of
        Inl e \<Rightarrow> Inl e
      | Inr kb' \<Rightarrow> run press frames kb')"

text \<open>
  \<^verbatim>\<open>VirtualKeyboard.__init__\<close>. It takes no argument; the only thing it tests is
  whether the camera opened, and it leaves through \<^verbatim>\<open>exit()\<close> when it did not.
  \<open>initial_keyboard\<close> is the object after the attribute assignments.
\<close>

definition initial_keyboard :: virtual_keyboard where
  "initial_keyboard =
     \<lparr> keyboard_layout =
         [[''Q'', ''W'', ''E'', ''R'', ''T'', ''Y'', ''U'', ''I'', ''O'', ''P''],
          [''A'', ''S'', ''D'', ''F'', ''G'', ''H'', ''J'', ''K'', ''L''],
          [''Z'', ''X'', ''C'', ''V'', ''B'', ''N'', ''M''],
          [''SPACE'', ''BACK'']],
       key_width = 50,
       key_height = 50,
       key_margin = 20,
       keyboard_start_x = 150,
       keyboard_start_y = 450,
       typed_text = [],
       touch_threshold = 30,
       last_key_time = 0,
       key_press_delay = 0.5,
       current_key = None,
       press_calls = [] \<rparr>"


section \<open>The click variants (test\_opencv.py, enhanced\_demo.py)\<close>

text \<open>The objects that the two constructors build once the camera has opened.\<close>

definition initial_test_keyboard :: grid_keyboard where
  "initial_test_keyboard =
     \<lparr> keyboard_layout =
         [[''Q'', ''W'', ''E'', ''R'', ''T'', ''Y'', ''U'', ''I'', ''O'', ''P''],
          [''A'', ''S'', ''D'', ''F'', ''G'', ''H'', ''J'', ''K'', ''L''],
          [''Z'', ''X'', ''C'', ''V'', ''B'', ''N'', ''M''],
          [''SPACE'', ''BACK'']],
       key_width = 50,
       key_height = 50,
       key_margin = 20,
       keyboard_start_x = 150,
       keyboard_start_y = 450,
       typed_text = [] \<rparr>"

definition initial_enhanced_keyboard :: enhanced_keyboard where
  "initial_enhanced_keyboard =
     \<lparr> keyboard_layout =
         [[''Q'', ''W'', ''E'', ''R'', ''T'', ''Y'', ''U'', ''I'', ''O'', ''P''],
          [''A'', ''S'', ''D'', ''F'', ''G'', ''H'', ''J'', ''K'', ''L''],
          [''Z'', ''X'', ''C'', ''V'', ''B'', ''N'', ''M''],
          [''SPACE'', ''BACK'']],
       key_width = 50,
       key_height = 50,
       key_margin = 20,
       keyboard_start_x = 150,
       keyboard_start_y = 450,
       typed_text = [],
       enhanced_keyboard.current_key = None,
       mouse_pos = (640, 360) \<rparr>"

definition EVENT_LBUTTONDOWN :: int where
  "EVENT_LBUTTONDOWN = 1"

text \<open>
  \<^verbatim>\<open>SimpleVirtualKeyboard.mouse_callback\<close> of \<^verbatim>\<open>test_opencv.py\<close>; its arguments
  \<^verbatim>\<open>flags\<close> and \<^verbatim>\<open>param\<close> are never read. It reads no clock and raises nowhere.
\<close>

definition mouse_callback :: "int \<Rightarrow> int \<Rightarrow> int \<Rightarrow> grid_keyboard \<Rightarrow> grid_keyboard" where
  "mouse_callback event x y kb =
     (if event = EVENT_LBUTTONDOWN then
        (case get_key_at_position kb x y of
           None \<Rightarrow> kb
         | Some key \<Rightarrow>
             if key \<noteq> [] then
               (if key = ''SPACE'' then kb\<lparr>typed_text := typed_text kb @ '' ''\<rparr>
                else if key = ''BACK'' then
                  (if typed_text kb \<noteq> [] then kb\<lparr>typed_text := butlast (typed_text kb)\<rparr>
                   else kb)
                else kb\<lparr>typed_text := typed_text kb @ key\<rparr>)
             else kb)
      else kb)"

text \<open>\<^verbatim>\<open>EnhancedVirtualKeyboard.mouse_callback\<close>: it also follows the pointer.\<close>

definition enhanced_mouse_callback ::
  "int \<Rightarrow> int \<Rightarrow> int \<Rightarrow> enhanced_keyboard \<Rightarrow> enhanced_keyboard" where
  "enhanced_mouse_callback event x y kb =
     (let kb1 = kb\<lparr>mouse_pos := (x, y)\<rparr>;
          kb2 = kb1\<lparr>enhanced_keyboard.current_key := get_key_at_position kb1 x y\<rparr>
      in if event = EVENT_LBUTTONDOWN then
           (case get_key_at_position kb2 x y of
              None \<Rightarrow> kb2
            | Some key \<Rightarrow>
                if key \<noteq> [] then
                  (if key = ''SPACE'' then kb2\<lparr>typed_text := typed_text kb2 @ '' ''\<rparr>
                   else if key = ''BACK'' then
                     (if typed_text kb2 \<noteq> [] then kb2\<lparr>typed_text := butlast (typed_text kb2)\<rparr>
                      else kb2)
                   else kb2\<lparr>typed_text := typed_text kb2 @ key\<rparr>)
                else kb2)
         else kb2)"

section \<open>The simple gesture demo (simple\_demo.py)\<close>

text \<open>
  Each key is a dictionary with the entries \<^verbatim>\<open>key\<close>, \<^verbatim>\<open>x\<close>, \<^verbatim>\<open>y\<close>, \<^verbatim>\<open>width\<close>,
  \<^verbatim>\<open>height\<close>. The class has neither a clock nor a delay; the names that the grid
  classes already use carry the suffix \<open>_demo\<close>.
\<close>

record key_info =
  info_key :: string
  info_x :: int
  info_y :: int
  info_width :: int
  info_height :: int

record demo_keyboard =
  keys :: "string list"
  key_positions :: "key_info list"
  touch_threshold_demo :: real
  typed_text_demo :: string

text \<open>The dimensions that \<^verbatim>\<open>cap.get\<close> reports are floats.\<close>

record demo_sample = landmarks +
  frame_height :: real
  frame_width :: real

fun setup_keys :: "nat \<Rightarrow> string list \<Rightarrow> key_info list" where
  "setup_keys i [] = []"
| "setup_keys i (key # rest) =
     \<lparr>info_key = key, info_x = 100 + int i * 120, info_y = 400,
      info_width = 100, info_height = 100\<rparr> # setup_keys (Suc i) rest"

definition setup_keyboard :: "demo_keyboard \<Rightarrow> demo_keyboard" where
  "setup_keyboard kb = kb\<lparr>key_positions := key_positions kb @ setup_keys 0 (keys kb)\<rparr>"

definition demo_init :: demo_keyboard where
  "demo_init =
     (setup_keyboard \<lparr>keys = [''A'', ''B'', ''C'', ''D'', ''E''], key_positions = [],
        touch_threshold_demo = 0, typed_text_demo = []\<rparr>)
       \<lparr>touch_threshold_demo := 40, typed_text_demo := []\<rparr>"

definition get_distance :: "real \<times> real \<Rightarrow> real \<times> real \<Rightarrow> real" where
  "get_distance p1 p2 = sqrt ((fst p1 - fst p2)\<^sup>2 + (snd p1 - snd p2)\<^sup>2)"

definition is_touching :: "demo_keyboard \<Rightarrow> demo_sample \<Rightarrow> bool" where
  "is_touching kb ds =
     (let h = frame_height ds; w = frame_width ds;
          thumb_pos = (fst (thumb_tip ds) * w, snd (thumb_tip ds) * h);
          index_pos = (fst (index_tip ds) * w, snd (index_tip ds) * h);
          distance = get_distance thumb_pos index_pos
      in distance < touch_threshold_demo kb)"

definition get_finger_position :: "demo_sample \<Rightarrow> int \<times> int" where
  "get_finger_position ds =
     (let h = frame_height ds; w = frame_width ds
      in (py_int (fst (index_tip ds) * w), py_int (snd (index_tip ds) * h)))"

fun key_in_positions :: "int \<Rightarrow> int \<Rightarrow> key_info list \<Rightarrow> string option" where
  "key_in_positions x y [] = None"
| "key_in_positions x y (ki # rest) =
     (let kx = info_x ki; ky = info_y ki; kw = info_width ki; kh = info_height ki
      in if (kx \<le> x \<and> x \<le> kx + kw) \<and> (ky \<le> y \<and> y \<le> ky + kh) then Some (info_key ki)
         else key_in_positions x y rest)"

definition get_key_at_position_demo :: "demo_keyboard \<Rightarrow> int \<times> int \<Rightarrow> string option" where
  "get_key_at_position_demo kb pos = key_in_positions (fst pos) (snd pos) (key_positions kb)"

text \<open>The body of the loop over the hands in \<^verbatim>\<open>SimpleVirtualKeyboard.run\<close>.\<close>

definition demo_process_hand :: "demo_sample \<Rightarrow> demo_keyboard \<Rightarrow> demo_keyboard" where
  "demo_process_hand ds kb =
     (let finger_pos = get_finger_position ds;
          current = get_key_at_position_demo kb finger_pos
      in if is_touching kb ds then
           (case current of
              None \<Rightarrow> kb
            | Some key \<Rightarrow>
                if key \<noteq> [] then kb\<lparr>typed_text_demo := typed_text_demo kb @ key\<rparr> else kb)
         else kb)"

fun demo_run :: "demo_sample list list \<Rightarrow> demo_keyboard \<Rightarrow> demo_keyboard" where
  "demo_run [] kb = kb"
| "demo_run (frame # frames) kb = demo_run frames (fold demo_process_hand frame kb)"

section \<open>The specification's words\<close>

text \<open>
  The definitions of this section follow the specification, not the code; the theorems
  below compare the code with them.

  Resolution: slot \<open>(row, col)\<close> occupies
  \<open>[origin_x + col * (key_width+margin), origin_x + col * (key_width+margin) + key_width]\<close> by
  \<open>[origin_y + row * (key_height+margin), origin_y + row * (key_height+margin) + key_height]\<close>,
  boundary included; the slots are taken rows top to bottom, columns left to right, and
  the first one that contains the point gives the key.
\<close>

definition slot_contains :: "'a grid_keyboard_scheme \<Rightarrow> nat \<Rightarrow> nat \<Rightarrow> int \<Rightarrow> int \<Rightarrow> bool" where
  "slot_contains kb row col x y =
     (let left = keyboard_start_x kb + int col * (key_width kb + key_margin kb);
          top = keyboard_start_y kb + int row * (key_height kb + key_margin kb)
      in (left \<le> x \<and> x \<le> left + key_width kb) \<and> (top \<le> y \<and> y \<le> top + key_height kb))"

definition key_slots :: "'a grid_keyboard_scheme \<Rightarrow> (nat \<times> nat \<times> string) list" where
  "key_slots kb =
     concat (map (\<lambda>(row, labels). map (\<lambda>(col, label). (row, col, label)) (enumerate 0 labels))
               (enumerate 0 (keyboard_layout kb)))"

definition resolve :: "'a grid_keyboard_scheme \<Rightarrow> int \<Rightarrow> int \<Rightarrow> string option" where
  "resolve kb x y =
     map_option (\<lambda>(row, col, label). label)
       (find (\<lambda>(row, col, label). slot_contains kb row col x y) (key_slots kb))"

text \<open>
  Key event application: \<^verbatim>\<open>SPACE\<close> appends one space; \<^verbatim>\<open>BACK\<close> removes the last
  character of a non-empty buffer and does nothing to an empty one; any other label is
  appended as it is.
\<close>

definition apply_key_event :: "string \<Rightarrow> string \<Rightarrow> string" where
  "apply_key_event label buffer =
     (if label = ''SPACE'' then buffer @ [CHR '' '']
      else if label = ''BACK'' then (if buffer = [] then [] else butlast buffer)
      else buffer @ label)"

text \<open>The keys that a sequence of clicks lands on, in order; a click on no key gives none.\<close>

definition clicked_keys :: "'a grid_keyboard_scheme \<Rightarrow> (int \<times> int) list \<Rightarrow> string list" where
  "clicked_keys kb clicks = List.map_filter (\<lambda>(x, y). get_key_at_position kb x y) clicks"





section \<open>Auxiliary notions\<close>

text \<open>Two keyboards with the same grid.\<close>

definition same_layout :: "'a grid_keyboard_scheme \<Rightarrow> 'b grid_keyboard_scheme \<Rightarrow> bool" where
  "same_layout kb' kb \<longleftrightarrow>
     keyboard_layout kb' = keyboard_layout kb \<and>
     keyboard_start_x kb' = keyboard_start_x kb \<and> keyboard_start_y kb' = keyboard_start_y kb \<and>
     key_width kb' = key_width kb \<and> key_height kb' = key_height kb \<and>
     key_margin kb' = key_margin kb"

text \<open>Nothing was emitted between \<open>kb\<close> and \<open>kb'\<close>, and the text is the same.\<close>

definition quiet :: "virtual_keyboard \<Rightarrow> virtual_keyboard \<Rightarrow> bool" where
  "quiet kb kb' \<longleftrightarrow>
     typed_text kb' = typed_text kb \<and> last_key_time kb' = last_key_time kb \<and>
     key_press_delay kb' = key_press_delay kb \<and> press_calls kb' = press_calls kb"

text \<open>
  A hand whose index tip is at pixel \<open>(150, 450)\<close> of a 1280 by 720 frame, the top left
  corner of \<^verbatim>\<open>Q\<close>, with the thumb tip on it, seen at clock reading \<open>t\<close>.
\<close>

definition pinch_over_Q :: "real \<Rightarrow> hand_sample" where
  "pinch_over_Q t =
     \<lparr> thumb_tip = (150 / 1280, 450 / 720), index_tip = (150 / 1280, 450 / 720),
       position_read = Some (720, 1280), touch_read = Some (720, 1280), clock = t \<rparr>"

text \<open>
  The invariant of the loop: the delay is not negative, any two emitted events are more
  than the delay apart, and none is later than \<^verbatim>\<open>last_key_time\<close>.
\<close>

definition spaced :: "virtual_keyboard \<Rightarrow> bool" where
  "spaced kb \<longleftrightarrow>
     0 \<le> key_press_delay kb \<and>
     sorted_wrt (\<lambda>s t. key_press_delay kb < t - s) (map fst (press_calls kb)) \<and>
     list_all (\<lambda>t. t \<le> last_key_time kb) (map fst (press_calls kb))"

text \<open>
  \<open>kb'\<close> comes after \<open>kb\<close>: the delay is the same, the events of \<open>kb\<close> are the first
  events of \<open>kb'\<close>, and the text has changed only if an event was added.
\<close>

definition continues :: "virtual_keyboard \<Rightarrow> virtual_keyboard \<Rightarrow> bool" where
  "continues kb kb' \<longleftrightarrow>
     key_press_delay kb' = key_press_delay kb \<and>
     (\<exists>new. press_calls kb' = press_calls kb @ new \<and>
            (new = [] \<longrightarrow> typed_text kb' = typed_text kb))"

text \<open>
  For \<^verbatim>\<open>simple_demo.py\<close>: a hand whose index tip is at pixel \<open>(150, 450)\<close>, inside
  \<^verbatim>\<open>A\<close>, with the thumb tip on it.
\<close>

definition demo_pinch :: demo_sample where
  "demo_pinch =
     \<lparr> thumb_tip = (150 / 1280, 450 / 720), index_tip = (150 / 1280, 450 / 720),
       frame_height = 720, frame_width = 1280 \<rparr>"

section \<open>What one call of type\_key does\<close>

text \<open>The two outcomes of the guard on line 222, each in closed form.\<close>

lemma type_key_idle:
  "\<not> key_press_delay kb < current_time - last_key_time kb \<Longrightarrow>
   type_key press current_time key kb = Inr kb"
  by (simp add: type_key_def)

lemma type_key_fires:
  "key_press_delay kb < current_time - last_key_time kb \<Longrightarrow>
   type_key press current_time key kb =
     Inr (kb\<lparr>typed_text :=
               (if key = ''SPACE'' then typed_text kb @ '' ''
                else if key = ''BACK'' then butlast (typed_text kb)
                else typed_text kb @ key),
             last_key_time := current_time,
             press_calls := press_calls kb @ [(current_time, press_argument key)]\<rparr>)"
  by (cases "press (press_argument key)") (simp_all add: type_key_def Let_def)

lemma press_argument_Q: "press_argument ''Q'' = ''q''"
  by code_simp

text \<open>
  C10. When the guard of \<^verbatim>\<open>type_key\<close> rejects the call (the time elapsed since the
  last emitted event is not greater than \<^verbatim>\<open>key_press_delay\<close>), the call changes
  nothing: the whole object, with the text, the timestamp and the list of injected keys,
  comes back as it was.
\<close>

theorem rejected_gesture_is_noop:
  assumes "\<not> (current_time - last_key_time kb > key_press_delay kb)"
  shows "type_key press current_time key kb = Inr kb"
  using assms by (simp add: type_key_def)

theorem rejected_gesture_is_noop_witness:
  "\<not> (0.3 - last_key_time initial_keyboard > key_press_delay initial_keyboard) \<and>
   type_key (\<lambda>arg. Inr ()) 0.3 ''Q'' initial_keyboard = Inr initial_keyboard"
proof -
  have h: "\<not> (0.3 - last_key_time initial_keyboard > key_press_delay initial_keyboard)"
    by (simp add: initial_keyboard_def)
  from h rejected_gesture_is_noop [OF h] show ?thesis by simp
qed

text \<open>
  C9. Whatever \<^verbatim>\<open>pyautogui.press\<close> does, \<^verbatim>\<open>type_key\<close> returns normally, and the object
  it leaves (text and timestamp included) is the one it leaves when the injection always
  raises and the one it leaves when the injection always succeeds.
\<close>

theorem injection_failure_swallowed:
  "\<exists>kb'. type_key press current_time key kb = Inr kb' \<and>
         type_key (\<lambda>arg. Inl InjectionFailure) current_time key kb = Inr kb' \<and>
         type_key (\<lambda>arg. Inr ()) current_time key kb = Inr kb'"
  by (cases "key_press_delay kb < current_time - last_key_time kb")
     (simp_all add: type_key_fires type_key_idle)

text \<open>
  C2, as the claim states it, fails: on the fresh keyboard (last event at 0, delay 0.5)
  a call at clock reading 0.5 comes exactly \<^verbatim>\<open>key_press_delay\<close> after the last event,
  so the inclusive comparison holds, and the call emits nothing.
\<close>

theorem inclusive_debounce_counterexample:
  "0.5 - last_key_time initial_keyboard \<ge> key_press_delay initial_keyboard \<and>
   type_key (\<lambda>arg. Inr ()) 0.5 ''Q'' initial_keyboard = Inr initial_keyboard"
  by (simp add: type_key_def initial_keyboard_def)

text \<open>
  C2, amended. A call of \<^verbatim>\<open>type_key\<close> emits a key event (one more call of the
  injection, and the timestamp set to the clock reading) exactly when the time elapsed
  since the last emitted event is strictly greater than \<^verbatim>\<open>key_press_delay\<close>; otherwise
  neither changes.
\<close>

theorem key_event_iff_strictly_later:
  "\<exists>kb'. type_key press current_time key kb = Inr kb' \<and>
         press_calls kb' =
           (if current_time - last_key_time kb > key_press_delay kb
            then press_calls kb @ [(current_time, press_argument key)]
            else press_calls kb) \<and>
         last_key_time kb' =
           (if current_time - last_key_time kb > key_press_delay kb
            then current_time else last_key_time kb)"
  by (cases "key_press_delay kb < current_time - last_key_time kb")
     (simp_all add: type_key_fires type_key_idle)

text \<open>
  C7. A \<^verbatim>\<open>BACK\<close> key event, through \<^verbatim>\<open>type_key\<close> when the guard lets it pass and
  through a click of \<^verbatim>\<open>test_opencv.py\<close> that lands on \<^verbatim>\<open>BACK\<close>, leaves an empty text
  empty without an error, and takes exactly the last character off a text that has one.
\<close>

theorem back_removes_last_character:
  assumes "current_time - last_key_time kb > key_press_delay kb"
    and "get_key_at_position g x y = Some ''BACK''"
  shows "(\<exists>kb'. type_key press current_time ''BACK'' kb = Inr kb' \<and>
            (typed_text kb = [] \<longrightarrow> typed_text kb' = []) \<and>
            (\<forall>rest c. typed_text kb = rest @ [c] \<longrightarrow> typed_text kb' = rest)) \<and>
         (typed_text g = [] \<longrightarrow> typed_text (mouse_callback EVENT_LBUTTONDOWN x y g) = []) \<and>
         (\<forall>rest c. typed_text g = rest @ [c] \<longrightarrow>
            typed_text (mouse_callback EVENT_LBUTTONDOWN x y g) = rest)"
  using assms by (auto simp add: type_key_fires mouse_callback_def)

theorem back_removes_last_character_witness:
  "(1 - last_key_time (initial_keyboard\<lparr>typed_text := ''HI''\<rparr>)
      > key_press_delay (initial_keyboard\<lparr>typed_text := ''HI''\<rparr>)) \<and>
   get_key_at_position (initial_test_keyboard\<lparr>typed_text := ''HI''\<rparr>) 220 660 = Some ''BACK'' \<and>
   (\<exists>kb'. type_key (\<lambda>arg. Inr ()) 1 ''BACK'' (initial_keyboard\<lparr>typed_text := ''HI''\<rparr>) = Inr kb' \<and>
          typed_text kb' = ''H'') \<and>
   typed_text (mouse_callback EVENT_LBUTTONDOWN 220 660 (initial_test_keyboard\<lparr>typed_text := ''HI''\<rparr>)) = ''H''"
proof -
  let ?kb = "initial_keyboard\<lparr>typed_text := ''HI''\<rparr>"
  let ?g = "initial_test_keyboard\<lparr>typed_text := ''HI''\<rparr>"
  have h1: "1 - last_key_time ?kb > key_press_delay ?kb"
    by (simp add: initial_keyboard_def)
  have h2: "get_key_at_position ?g 220 660 = Some ''BACK''"
    by (simp add: get_key_at_position_def initial_test_keyboard_def)
  have t: "typed_text ?kb = ''H'' @ [CHR ''I'']" "typed_text ?g = ''H'' @ [CHR ''I'']"
    by simp_all
  from back_removes_last_character [OF h1 h2, of "\<lambda>arg. Inr ()"] t h1 h2
  show ?thesis by blast
qed

text \<open>
  C8. A \<^verbatim>\<open>SPACE\<close> key event appends one space, and a key event whose label is
  neither \<^verbatim>\<open>SPACE\<close> nor \<^verbatim>\<open>BACK\<close> appends the label as it is; the text that was
  there stays in front, unchanged. This holds for \<^verbatim>\<open>type_key\<close> when the guard lets the
  call pass, and for a click of \<^verbatim>\<open>test_opencv.py\<close> that lands on the key.
\<close>

theorem space_and_labels_append:
  assumes "current_time - last_key_time kb > key_press_delay kb"
    and "get_key_at_position g x y = Some key"
  shows "(\<exists>kb'. type_key press current_time label kb = Inr kb' \<and>
            (label = ''SPACE'' \<longrightarrow> typed_text kb' = typed_text kb @ [CHR '' '']) \<and>
            (label \<noteq> ''SPACE'' \<and> label \<noteq> ''BACK'' \<longrightarrow> typed_text kb' = typed_text kb @ label)) \<and>
         (key = ''SPACE'' \<longrightarrow>
            typed_text (mouse_callback EVENT_LBUTTONDOWN x y g) = typed_text g @ [CHR '' '']) \<and>
         (key \<noteq> ''SPACE'' \<and> key \<noteq> ''BACK'' \<longrightarrow>
            typed_text (mouse_callback EVENT_LBUTTONDOWN x y g) = typed_text g @ key)"
  using assms by (auto simp add: type_key_fires mouse_callback_def)

theorem space_and_labels_append_witness:
  "(1 - last_key_time (initial_keyboard\<lparr>typed_text := ''HI''\<rparr>)
      > key_press_delay (initial_keyboard\<lparr>typed_text := ''HI''\<rparr>)) \<and>
   get_key_at_position (initial_test_keyboard\<lparr>typed_text := ''HI''\<rparr>) 150 660 = Some ''SPACE'' \<and>
   (\<exists>kb'. type_key (\<lambda>arg. Inr ()) 1 ''Q'' (initial_keyboard\<lparr>typed_text := ''HI''\<rparr>) = Inr kb' \<and>
          typed_text kb' = ''HIQ'') \<and>
   typed_text (mouse_callback EVENT_LBUTTONDOWN 150 660 (initial_test_keyboard\<lparr>typed_text := ''HI''\<rparr>)) = ''HI ''"
proof -
  let ?kb = "initial_keyboard\<lparr>typed_text := ''HI''\<rparr>"
  let ?g = "initial_test_keyboard\<lparr>typed_text := ''HI''\<rparr>"
  have h1: "1 - last_key_time ?kb > key_press_delay ?kb"
    by (simp add: initial_keyboard_def)
  have h2: "get_key_at_position ?g 150 660 = Some ''SPACE''"
    by (simp add: get_key_at_position_def initial_test_keyboard_def)
  from space_and_labels_append [OF h1 h2, of "\<lambda>arg. Inr ()" "''Q''"] h1 h2
  show ?thesis by simp
qed

section \<open>Resolution\<close>

lemma find_append_first:
  "find P (xs @ ys) = (case find P xs of None \<Rightarrow> find P ys | Some a \<Rightarrow> Some a)"
  by (induction xs) simp_all

lemma key_in_row_find:
  "key_in_row kb x y r c labels =
     map_option (\<lambda>(row, col, label). label)
       (find (\<lambda>(row, col, label). slot_contains kb row col x y)
          (map (\<lambda>(col, label). (r, col, label)) (enumerate c labels)))"
  by (induction labels arbitrary: c) (simp_all add: slot_contains_def Let_def)

lemma key_in_rows_find:
  "key_in_rows kb x y r rows =
     map_option (\<lambda>(row, col, label). label)
       (find (\<lambda>(row, col, label). slot_contains kb row col x y)
          (concat (map (\<lambda>(row, labels). map (\<lambda>(col, label). (row, col, label)) (enumerate 0 labels))
                     (enumerate r rows))))"
proof (induction rows arbitrary: r)
  case Nil
  show ?case by simp
next
  case (Cons labels rows)
  show ?case
    by (simp add: find_append_first key_in_row_find [of kb x y r 0 labels] Cons.IH
        split: option.splits)
qed

text \<open>
  C3. For every point, \<^verbatim>\<open>get_key_at_position\<close> returns the key of the first slot, rows
  top to bottom and columns left to right, whose rectangle (boundary included) contains
  the point, and \<^verbatim>\<open>None\<close> exactly when no slot contains it.
\<close>

theorem get_key_at_position_first_slot:
  "get_key_at_position kb x y = resolve kb x y \<and>
   (get_key_at_position kb x y = None) =
     (\<not> list_ex (\<lambda>(row, col, label). slot_contains kb row col x y) (key_slots kb))"
proof -
  have eq: "get_key_at_position kb x y = resolve kb x y"
    by (simp add: get_key_at_position_def resolve_def key_slots_def key_in_rows_find)
  have "(resolve kb x y = None) =
     (\<not> list_ex (\<lambda>(row, col, label). slot_contains kb row col x y) (key_slots kb))"
    by (auto simp add: resolve_def find_None_iff list_ex_iff)
  with eq show ?thesis by simp
qed

section \<open>Clicks\<close>

text \<open>The key under a point depends on the six grid attributes only.\<close>

lemma key_in_row_layout:
  assumes "keyboard_start_x kb' = keyboard_start_x kb" and "keyboard_start_y kb' = keyboard_start_y kb"
    and "key_width kb' = key_width kb" and "key_height kb' = key_height kb"
    and "key_margin kb' = key_margin kb"
  shows "key_in_row kb' x y r c labels = key_in_row kb x y r c labels"
proof (induction labels arbitrary: c)
  case Nil
  show ?case by simp
next
  case (Cons label labels)
  show ?case by (simp only: key_in_row.simps assms Cons.IH)
qed

lemma key_in_rows_layout:
  assumes "keyboard_start_x kb' = keyboard_start_x kb" and "keyboard_start_y kb' = keyboard_start_y kb"
    and "key_width kb' = key_width kb" and "key_height kb' = key_height kb"
    and "key_margin kb' = key_margin kb"
  shows "key_in_rows kb' x y r rows = key_in_rows kb x y r rows"
proof (induction rows arbitrary: r)
  case Nil
  show ?case by simp
next
  case (Cons labels rows)
  show ?case
    by (simp only: key_in_rows.simps key_in_row_layout [OF assms] Cons.IH)
qed

lemma get_key_at_position_layout:
  assumes "keyboard_layout kb' = keyboard_layout kb"
    and "keyboard_start_x kb' = keyboard_start_x kb" and "keyboard_start_y kb' = keyboard_start_y kb"
    and "key_width kb' = key_width kb" and "key_height kb' = key_height kb"
    and "key_margin kb' = key_margin kb"
  shows "get_key_at_position kb' x y = get_key_at_position kb x y"
  by (simp only: get_key_at_position_def assms(1) key_in_rows_layout [OF assms(2-)])

lemma same_layout_key: "same_layout kb' kb \<Longrightarrow> get_key_at_position kb' x y = get_key_at_position kb x y"
  unfolding same_layout_def by (intro get_key_at_position_layout) simp_all



lemma mouse_callback_layout: "same_layout g' g \<Longrightarrow> same_layout (mouse_callback event x y g') g"
  by (simp add: same_layout_def mouse_callback_def split: option.splits)

lemma mouse_callback_text:
  "typed_text (mouse_callback EVENT_LBUTTONDOWN x y g) =
     (case get_key_at_position g x y of
        None \<Rightarrow> typed_text g
      | Some key \<Rightarrow> apply_key_event key (typed_text g))"
  by (simp add: mouse_callback_def apply_key_event_def split: option.splits)

lemma enhanced_hover_key:
  "get_key_at_position
     (e\<lparr>mouse_pos := p, enhanced_keyboard.current_key := k\<rparr>) x y = get_key_at_position e x y"
  by (rule get_key_at_position_layout) simp_all

lemma enhanced_mouse_callback_layout:
  "same_layout e' e \<Longrightarrow> same_layout (enhanced_mouse_callback event x y e') e"
  by (simp add: same_layout_def enhanced_mouse_callback_def Let_def split: option.splits)

lemma enhanced_mouse_callback_text:
  "typed_text (enhanced_mouse_callback EVENT_LBUTTONDOWN x y e) =
     (case get_key_at_position e x y of
        None \<Rightarrow> typed_text e
      | Some key \<Rightarrow> apply_key_event key (typed_text e))"
  by (simp add: enhanced_mouse_callback_def Let_def enhanced_hover_key apply_key_event_def
      split: option.splits)

lemma clicks_text:
  "same_layout g' g \<Longrightarrow>
   typed_text (fold (\<lambda>(x, y). mouse_callback EVENT_LBUTTONDOWN x y) clicks g') =
     fold apply_key_event (clicked_keys g clicks) (typed_text g')"
proof (induction clicks arbitrary: g')
  case Nil
  show ?case by (simp add: clicked_keys_def map_filter_simps)
next
  case (Cons c clicks)
  obtain x y where c: "c = (x, y)" by (cases c)
  have "same_layout (mouse_callback EVENT_LBUTTONDOWN x y g') g"
    using Cons.prems by (rule mouse_callback_layout)
  from Cons.IH [OF this] show ?case
    using same_layout_key [OF Cons.prems, of x y]
    by (simp add: c clicked_keys_def map_filter_simps mouse_callback_text split: option.splits)
qed

lemma enhanced_clicks_text:
  "same_layout e' e \<Longrightarrow>
   typed_text (fold (\<lambda>(x, y). enhanced_mouse_callback EVENT_LBUTTONDOWN x y) clicks e') =
     fold apply_key_event (clicked_keys e clicks) (typed_text e')"
proof (induction clicks arbitrary: e')
  case Nil
  show ?case by (simp add: clicked_keys_def map_filter_simps)
next
  case (Cons c clicks)
  obtain x y where c: "c = (x, y)" by (cases c)
  have "same_layout (enhanced_mouse_callback EVENT_LBUTTONDOWN x y e') e"
    using Cons.prems by (rule enhanced_mouse_callback_layout)
  from Cons.IH [OF this] show ?case
    using same_layout_key [OF Cons.prems, of x y]
    by (simp add: c clicked_keys_def map_filter_simps enhanced_mouse_callback_text split: option.splits)
qed

text \<open>
  C6. In both click variants, after any sequence of clicks the text is the result of
  applying one key event for each click that lands on a key, in the order of the clicks,
  and nothing for a click that lands on no key. The callbacks read no clock and keep no
  state between clicks, so how close in time two clicks are plays no part.
\<close>

theorem every_click_on_a_key_fires:
  "typed_text (fold (\<lambda>(x, y). mouse_callback EVENT_LBUTTONDOWN x y) clicks g) =
     fold apply_key_event (clicked_keys g clicks) (typed_text g) \<and>
   typed_text (fold (\<lambda>(x, y). enhanced_mouse_callback EVENT_LBUTTONDOWN x y) clicks e) =
     fold apply_key_event (clicked_keys e clicks) (typed_text e)"
  by (simp add: clicks_text enhanced_clicks_text same_layout_def)

section \<open>The frame loop under a held pinch\<close>

text \<open>A hand seen no later than \<^verbatim>\<open>key_press_delay\<close> after the last event emits nothing.\<close>

lemma process_hand_quiet:
  assumes "clock hs - last_key_time kb \<le> key_press_delay kb"
  shows "\<exists>kb'. process_hand press hs kb = Inr kb' \<and> quiet kb kb'"
  using assms
  by (simp add: process_hand_def Let_def quiet_def type_key_idle split: option.splits)

lemma process_hands_quiet:
  assumes "\<forall>hs\<in>set hands. clock hs - last_key_time kb \<le> key_press_delay kb"
  shows "\<exists>kb'. process_hands press hands kb = Inr kb' \<and> quiet kb kb'"
  using assms
proof (induction hands arbitrary: kb)
  case Nil
  show ?case by (simp add: quiet_def)
next
  case (Cons hs hands)
  from Cons.prems obtain kb1 where 1: "process_hand press hs kb = Inr kb1" "quiet kb kb1"
    using process_hand_quiet [of hs kb press] by auto
  from Cons.prems 1(2) have "\<forall>hs\<in>set hands. clock hs - last_key_time kb1 \<le> key_press_delay kb1"
    by (simp add: quiet_def)
  from Cons.IH [OF this] obtain kb' where 2: "process_hands press hands kb1 = Inr kb'" "quiet kb1 kb'"
    by auto
  from 1 2 show ?case by (simp add: quiet_def)
qed

lemma process_frame_quiet:
  assumes "\<forall>hs\<in>set hands. clock hs - last_key_time kb \<le> key_press_delay kb"
  shows "\<exists>kb'. process_frame press hands kb = Inr kb' \<and> quiet kb kb'"
proof -
  from assms have "\<forall>hs\<in>set hands. clock hs - last_key_time (kb\<lparr>current_key := None\<rparr>)
      \<le> key_press_delay (kb\<lparr>current_key := None\<rparr>)" by simp
  from process_hands_quiet [OF this, of press] show ?thesis
    by (simp add: process_frame_def quiet_def)
qed

lemma run_quiet:
  assumes "\<forall>frame\<in>set frames. \<forall>hs\<in>set frame. clock hs - last_key_time kb \<le> key_press_delay kb"
  shows "\<exists>kb'. run press frames kb = Inr kb' \<and> quiet kb kb'"
  using assms
proof (induction frames arbitrary: kb)
  case Nil
  show ?case by (simp add: quiet_def)
next
  case (Cons frame frames)
  from Cons.prems obtain kb1 where 1: "process_frame press frame kb = Inr kb1" "quiet kb kb1"
    using process_frame_quiet [of frame kb press] by auto
  from Cons.prems 1(2)
  have "\<forall>frame\<in>set frames. \<forall>hs\<in>set frame. clock hs - last_key_time kb1 \<le> key_press_delay kb1"
    by (simp add: quiet_def)
  from Cons.IH [OF this] obtain kb' where 2: "run press frames kb1 = Inr kb'" "quiet kb1 kb'"
    by auto
  from 1 2 show ?case by (simp add: quiet_def)
qed

text \<open>The hand \<open>pinch_over_Q\<close> touches, and points at \<^verbatim>\<open>Q\<close>.\<close>

lemma pinch_touching:
  "touch_threshold kb = 30 \<Longrightarrow> is_finger_touching_thumb kb (pinch_over_Q t)"
  by (simp add: is_finger_touching_thumb_def pinch_over_Q_def frame_shape_def calculate_distance_def)

lemma pinch_position: "get_index_finger_position (pinch_over_Q t) = (150, 450)"
  by (simp add: get_index_finger_position_def pinch_over_Q_def frame_shape_def py_int_def)

lemma pinch_clock: "clock (pinch_over_Q t) = t"
  by (simp add: pinch_over_Q_def)

lemma Q_under_pinch:
  "same_layout kb initial_keyboard \<Longrightarrow> get_key_at_position kb 150 450 = Some ''Q''"
proof -
  assume "same_layout kb initial_keyboard"
  then have "get_key_at_position kb 150 450 = get_key_at_position initial_keyboard 150 450"
    by (rule same_layout_key)
  also have "\<dots> = Some ''Q''"
    by (simp add: get_key_at_position_def initial_keyboard_def)
  finally show ?thesis .
qed

lemma process_pinch_fires:
  assumes "same_layout kb initial_keyboard" and "touch_threshold kb = 30"
    and "key_press_delay kb < t - last_key_time kb"
  shows "process_hand press (pinch_over_Q t) kb =
           Inr (kb\<lparr>typed_text := typed_text kb @ ''Q'', last_key_time := t,
                    current_key := Some ''Q'',
                    press_calls := press_calls kb @ [(t, ''q'')]\<rparr>)"
  using assms
  by (simp add: process_hand_def Let_def pinch_position Q_under_pinch pinch_touching pinch_clock
      type_key_fires press_argument_Q)

lemma pinch_frame_fires:
  assumes "same_layout kb initial_keyboard" and "touch_threshold kb = 30"
    and "key_press_delay kb < t - last_key_time kb"
  shows "process_frame press [pinch_over_Q t] kb =
           Inr (kb\<lparr>typed_text := typed_text kb @ ''Q'', last_key_time := t,
                    current_key := Some ''Q'',
                    press_calls := press_calls kb @ [(t, ''q'')]\<rparr>)"
proof -
  have "process_hand press (pinch_over_Q t) (kb\<lparr>current_key := None\<rparr>) =
      Inr (kb\<lparr>typed_text := typed_text kb @ ''Q'', last_key_time := t,
                    current_key := Some ''Q'',
                    press_calls := press_calls kb @ [(t, ''q'')]\<rparr>)"
    using assms by (subst process_pinch_fires) (simp_all add: same_layout_def)
  then show ?thesis by (simp add: process_frame_def)
qed

text \<open>
  C1, as the claim states it, fails: the loop keeps no record that a pinch is already
  consumed. With the pinch held closed over \<^verbatim>\<open>Q\<close> in two successive frames, seen at
  clock readings 1 and 2 (delay 0.5), each frame emits: the text is \<^verbatim>\<open>QQ\<close> and the
  injection was called twice.
\<close>

theorem held_pinch_repeats_counterexample:
  "is_finger_touching_thumb initial_keyboard (pinch_over_Q 1) \<and>
   is_finger_touching_thumb initial_keyboard (pinch_over_Q 2) \<and>
   run (\<lambda>arg. Inr ()) [[pinch_over_Q 1], [pinch_over_Q 2]] initial_keyboard =
     Inr (initial_keyboard\<lparr>typed_text := ''QQ'', last_key_time := 2, current_key := Some ''Q'',
            press_calls := [(1, ''q''), (2, ''q'')]\<rparr>)"
proof -
  let ?k1 = "initial_keyboard\<lparr>typed_text := ''Q'', last_key_time := 1, current_key := Some ''Q'',
             press_calls := [(1, ''q'')]\<rparr>"
  let ?k2 = "initial_keyboard\<lparr>typed_text := ''QQ'', last_key_time := 2, current_key := Some ''Q'',
            press_calls := [(1, ''q''), (2, ''q'')]\<rparr>"
  have t: "touch_threshold initial_keyboard = 30"
    by (simp add: initial_keyboard_def)
  have f1: "process_frame (\<lambda>arg. Inr ()) [pinch_over_Q 1] initial_keyboard = Inr ?k1"
    by (subst pinch_frame_fires) (simp_all add: same_layout_def initial_keyboard_def)
  have f2: "process_frame (\<lambda>arg. Inr ()) [pinch_over_Q 2] ?k1 = Inr ?k2"
    by (subst pinch_frame_fires) (simp_all add: same_layout_def initial_keyboard_def)
  have "run (\<lambda>arg. Inr ()) [[pinch_over_Q 1], [pinch_over_Q 2]] initial_keyboard = Inr ?k2"
    by (simp only: run.simps f1 f2 sum.case)
  with t show ?thesis by (simp only: pinch_touching simp_thms)
qed

text \<open>
  C1, amended. After a key event at time \<open>last_key_time\<close>, however many frames follow
  and whatever they show (pinch held or not, any hovered key), as long as every one is
  seen no later than \<^verbatim>\<open>key_press_delay\<close> after that event, no further key event is
  emitted and the text stays as it is.
\<close>

theorem held_pinch_silent_within_delay:
  assumes "\<forall>frame\<in>set frames. \<forall>hs\<in>set frame. clock hs - last_key_time kb \<le> key_press_delay kb"
  shows "\<exists>kb'. run press frames kb = Inr kb' \<and> typed_text kb' = typed_text kb \<and>
           press_calls kb' = press_calls kb \<and> last_key_time kb' = last_key_time kb"
  using run_quiet [OF assms, of press] by (auto simp add: quiet_def)

theorem held_pinch_silent_within_delay_witness:
  "\<exists>kb'. run (\<lambda>arg. Inr ()) [[pinch_over_Q 1.2], [pinch_over_Q 1.5]]
            (initial_keyboard\<lparr>typed_text := ''Q'', last_key_time := 1, current_key := Some ''Q'',
               press_calls := [(1, ''q'')]\<rparr>) = Inr kb' \<and>
         typed_text kb' = ''Q'' \<and> press_calls kb' = [(1, ''q'')] \<and> last_key_time kb' = 1"
  using held_pinch_silent_within_delay
    [of "[[pinch_over_Q 1.2], [pinch_over_Q 1.5]]"
        "initial_keyboard\<lparr>typed_text := ''Q'', last_key_time := 1, current_key := Some ''Q'',
               press_calls := [(1, ''q'')]\<rparr>" "\<lambda>arg. Inr ()"]
  by (simp add: pinch_clock initial_keyboard_def)

section \<open>Events are more than the delay apart\<close>

lemma continues_refl: "continues kb kb"
  by (simp add: continues_def)

lemma continues_trans:
  assumes "continues a b" and "continues b c"
  shows "continues a c"
proof -
  from assms(1) obtain n1 where 1: "key_press_delay b = key_press_delay a"
    "press_calls b = press_calls a @ n1" "n1 = [] \<longrightarrow> typed_text b = typed_text a"
    unfolding continues_def by blast
  from assms(2) obtain n2 where 2: "key_press_delay c = key_press_delay b"
    "press_calls c = press_calls b @ n2" "n2 = [] \<longrightarrow> typed_text c = typed_text b"
    unfolding continues_def by blast
  have "press_calls c = press_calls a @ (n1 @ n2)"
    using 1(2) 2(2) by simp
  moreover have "n1 @ n2 = [] \<longrightarrow> typed_text c = typed_text a"
    using 1(3) 2(3) by simp
  ultimately show ?thesis
    unfolding continues_def using 1(1) 2(1) by metis
qed

lemma one_in_window:
  fixes d :: real
  assumes "sorted_wrt (\<lambda>s t. d < t - s) ts"
  shows "length (filter (\<lambda>t. a \<le> t \<and> t \<le> a + d) ts) \<le> 1"
  using assms
proof (induction ts)
  case Nil
  show ?case by simp
next
  case (Cons t ts)
  then have later: "\<forall>u\<in>set ts. d < u - t" and ih: "length (filter (\<lambda>t. a \<le> t \<and> t \<le> a + d) ts) \<le> 1"
    by simp_all
  show ?case
  proof (cases "a \<le> t \<and> t \<le> a + d")
    case True
    have "\<not> (a \<le> u \<and> u \<le> a + d)" if "u \<in> set ts" for u
    proof -
      from later that have "d < u - t" by blast
      with True show ?thesis by linarith
    qed
    then have "filter (\<lambda>t. a \<le> t \<and> t \<le> a + d) ts = []" by (simp add: filter_empty_conv)
    with True show ?thesis by simp
  next
    case False
    then have "filter (\<lambda>t. a \<le> t \<and> t \<le> a + d) (t # ts) = filter (\<lambda>t. a \<le> t \<and> t \<le> a + d) ts"
      by simp
    with ih show ?thesis by (simp only:)
  qed
qed


lemma type_key_step:
  assumes "spaced kb"
  shows "\<exists>kb'. type_key press t key kb = Inr kb' \<and> spaced kb' \<and> continues kb kb'"
proof (cases "key_press_delay kb < t - last_key_time kb")
  case False
  with assms show ?thesis by (simp add: type_key_idle continues_refl)
next
  case True
  let ?kb' = "kb\<lparr>typed_text :=
               (if key = ''SPACE'' then typed_text kb @ '' ''
                else if key = ''BACK'' then butlast (typed_text kb)
                else typed_text kb @ key),
             last_key_time := t,
             press_calls := press_calls kb @ [(t, press_argument key)]\<rparr>"
  from assms have d: "0 \<le> key_press_delay kb"
    and s: "sorted_wrt (\<lambda>s t. key_press_delay kb < t - s) (map fst (press_calls kb))"
    and b: "\<forall>u\<in>set (press_calls kb). fst u \<le> last_key_time kb"
    by (auto simp add: spaced_def list_all_iff)
  have far: "key_press_delay kb < t - fst u \<and> fst u \<le> t" if "u \<in> set (press_calls kb)" for u
  proof -
    from b that have "fst u \<le> last_key_time kb" by blast
    with True d show ?thesis by linarith
  qed
  have 1: "type_key press t key kb = Inr ?kb'"
    using True by (rule type_key_fires)
  have 2: "spaced ?kb'"
    using d s far by (simp add: spaced_def sorted_wrt_append list_all_iff)
  have 3: "continues kb ?kb'"
    by (simp add: continues_def)
  from 1 2 3 show ?thesis by blast
qed


lemma current_key_spaced: "spaced (kb\<lparr>current_key := k\<rparr>) = spaced kb"
  by (simp add: spaced_def)

lemma current_key_continues: "continues kb (kb\<lparr>current_key := k\<rparr>)"
  by (simp add: continues_def)

lemma process_hand_step:
  assumes "spaced kb"
  shows "\<exists>kb'. process_hand press hs kb = Inr kb' \<and> spaced kb' \<and> continues kb kb'"
proof -
  let ?k1 = "kb\<lparr>current_key := get_key_at_position kb (fst (get_index_finger_position hs))
                (snd (get_index_finger_position hs))\<rparr>"
  have 1: "spaced ?k1" "continues kb ?k1"
    using assms by (simp_all add: current_key_spaced current_key_continues)
  have "process_hand press hs kb = Inr ?k1 \<or>
        (\<exists>key. process_hand press hs kb = type_key press (clock hs) key ?k1)"
    by (auto simp add: process_hand_def Let_def split: option.splits)
  then show ?thesis
  proof
    assume "process_hand press hs kb = Inr ?k1"
    with 1 show ?thesis by simp
  next
    assume "\<exists>key. process_hand press hs kb = type_key press (clock hs) key ?k1"
    then obtain key where k: "process_hand press hs kb = type_key press (clock hs) key ?k1" ..
    from type_key_step [OF 1(1), of press "clock hs" key]
    obtain kb' where t: "type_key press (clock hs) key ?k1 = Inr kb'" "spaced kb'" "continues ?k1 kb'"
      by blast
    from 1(2) t(3) have "continues kb kb'" by (rule continues_trans)
    with k t(1,2) show ?thesis by simp
  qed
qed

lemma process_hands_step:
  assumes "spaced kb"
  shows "\<exists>kb'. process_hands press hands kb = Inr kb' \<and> spaced kb' \<and> continues kb kb'"
  using assms
proof (induction hands arbitrary: kb)
  case Nil
  then show ?case by (simp add: continues_refl)
next
  case (Cons hs hands)
  from process_hand_step [OF Cons.prems, of press hs]
  obtain k1 where 1: "process_hand press hs kb = Inr k1" "spaced k1" "continues kb k1" by blast
  from Cons.IH [OF 1(2)]
  obtain kb' where 2: "process_hands press hands k1 = Inr kb'" "spaced kb'" "continues k1 kb'" by blast
  from 1(3) 2(3) have "continues kb kb'" by (rule continues_trans)
  with 1(1) 2(1,2) show ?case by simp
qed

lemma process_frame_step:
  assumes "spaced kb"
  shows "\<exists>kb'. process_frame press hands kb = Inr kb' \<and> spaced kb' \<and> continues kb kb'"
proof -
  from assms have "spaced (kb\<lparr>current_key := None\<rparr>)" by (simp add: current_key_spaced)
  from process_hands_step [OF this, of press hands]
  obtain kb' where 1: "process_hands press hands (kb\<lparr>current_key := None\<rparr>) = Inr kb'" "spaced kb'"
    "continues (kb\<lparr>current_key := None\<rparr>) kb'" by blast
  from current_key_continues 1(3) have "continues kb kb'" by (rule continues_trans)
  with 1(1,2) show ?thesis by (simp add: process_frame_def)
qed

lemma run_step:
  assumes "spaced kb"
  shows "\<exists>kb'. run press frames kb = Inr kb' \<and> spaced kb' \<and> continues kb kb'"
  using assms
proof (induction frames arbitrary: kb)
  case Nil
  then show ?case by (simp add: continues_refl)
next
  case (Cons frame frames)
  from process_frame_step [OF Cons.prems, of press frame]
  obtain k1 where 1: "process_frame press frame kb = Inr k1" "spaced k1" "continues kb k1" by blast
  from Cons.IH [OF 1(2)]
  obtain kb' where 2: "run press frames k1 = Inr kb'" "spaced kb'" "continues k1 kb'" by blast
  from 1(3) 2(3) have "continues kb kb'" by (rule continues_trans)
  with 1(1) 2(1,2) show ?case by simp
qed

text \<open>The gesture loop of \<^verbatim>\<open>simple_demo.py\<close> on the hand \<open>demo_pinch\<close>.\<close>

lemma demo_init_positions:
  "demo_init =
     \<lparr> keys = [''A'', ''B'', ''C'', ''D'', ''E''],
       key_positions =
         [\<lparr>info_key = ''A'', info_x = 100, info_y = 400, info_width = 100, info_height = 100\<rparr>,
          \<lparr>info_key = ''B'', info_x = 220, info_y = 400, info_width = 100, info_height = 100\<rparr>,
          \<lparr>info_key = ''C'', info_x = 340, info_y = 400, info_width = 100, info_height = 100\<rparr>,
          \<lparr>info_key = ''D'', info_x = 460, info_y = 400, info_width = 100, info_height = 100\<rparr>,
          \<lparr>info_key = ''E'', info_x = 580, info_y = 400, info_width = 100, info_height = 100\<rparr>],
       touch_threshold_demo = 40, typed_text_demo = [] \<rparr>"
  by (simp add: demo_init_def setup_keyboard_def)

lemma demo_pinch_touching: "touch_threshold_demo kb = 40 \<Longrightarrow> is_touching kb demo_pinch"
  by (simp add: is_touching_def demo_pinch_def get_distance_def Let_def)

lemma demo_pinch_position: "get_finger_position demo_pinch = (150, 450)"
  by (simp add: get_finger_position_def demo_pinch_def py_int_def Let_def)

lemma demo_pinch_appends:
  assumes "key_positions kb = key_positions demo_init" and "touch_threshold_demo kb = 40"
  shows "demo_process_hand demo_pinch kb = kb\<lparr>typed_text_demo := typed_text_demo kb @ ''A''\<rparr>"
  using assms
  by (simp add: demo_process_hand_def Let_def demo_pinch_position demo_pinch_touching
      get_key_at_position_demo_def demo_init_positions)

text \<open>
  C4, as the claim states it, fails for the gesture loop of \<^verbatim>\<open>simple_demo.py\<close>, which
  has neither a clock nor a delay: with the pinch closed over \<^verbatim>\<open>A\<close> in two successive
  frames, however close in time, each frame appends, and the text is \<^verbatim>\<open>AA\<close>.
\<close>

theorem simple_demo_no_debounce_counterexample:
  "is_touching demo_init demo_pinch \<and>
   demo_run [[demo_pinch], [demo_pinch]] demo_init = demo_init\<lparr>typed_text_demo := ''AA''\<rparr>"
proof -
  have 1: "demo_process_hand demo_pinch demo_init = demo_init\<lparr>typed_text_demo := ''A''\<rparr>"
    by (subst demo_pinch_appends) (simp_all add: demo_init_positions)
  have 2: "demo_process_hand demo_pinch (demo_init\<lparr>typed_text_demo := ''A''\<rparr>)
      = demo_init\<lparr>typed_text_demo := ''AA''\<rparr>"
    by (subst demo_pinch_appends) (simp_all add: demo_init_positions)
  have "demo_run [[demo_pinch], [demo_pinch]] demo_init = demo_init\<lparr>typed_text_demo := ''AA''\<rparr>"
    by (simp only: demo_run.simps fold_simps id_apply o_apply 1 2)
  moreover have "is_touching demo_init demo_pinch"
    by (rule demo_pinch_touching) (simp add: demo_init_positions)
  ultimately show ?thesis by blast
qed

lemma run_append:
  "run press (before @ after) kb =
     (case run press before kb of Inl e \<Rightarrow> Inl e | Inr mid \<Rightarrow> run press after mid)"
  by (induction before arbitrary: kb) (simp_all split: sum.splits)

text \<open>
  C4, amended. In every execution of the loop of \<^verbatim>\<open>virtual_keyboard.py\<close> that starts
  with nothing emitted and a delay that is not negative, every window
  \<open>[a, a + key_press_delay]\<close> holds at most one emitted key event, however many hands and
  frames are seen; and the text changes only when an event is emitted: over any tail of
  the execution in which no event is emitted, the text stays as it is.
\<close>

theorem one_event_per_debounce_window:
  assumes "0 \<le> key_press_delay kb" and "press_calls kb = []"
  shows "\<exists>kb'. run press frames kb = Inr kb' \<and>
           length (filter (\<lambda>event. a \<le> fst event \<and> fst event \<le> a + key_press_delay kb)
                     (press_calls kb')) \<le> 1 \<and>
           (\<forall>before after mid.
              frames = before @ after \<and> run press before kb = Inr mid \<and>
              press_calls kb' = press_calls mid \<longrightarrow> typed_text kb' = typed_text mid)"
proof -
  from assms have sp: "spaced kb" by (simp add: spaced_def)
  from run_step [OF this, of press frames]
  obtain kb' where r: "run press frames kb = Inr kb'" and s: "spaced kb'" and c: "continues kb kb'"
    by blast
  from c have d: "key_press_delay kb' = key_press_delay kb" by (simp add: continues_def)
  from s d have "sorted_wrt (\<lambda>s t. key_press_delay kb < t - s) (map fst (press_calls kb'))"
    by (simp add: spaced_def)
  from one_in_window [OF this, of a]
  have w: "length (filter (\<lambda>event. a \<le> fst event \<and> fst event \<le> a + key_press_delay kb)
                     (press_calls kb')) \<le> 1"
    by (simp add: filter_map comp_def)
  have t: "typed_text kb' = typed_text mid"
    if f: "frames = before @ after" and m: "run press before kb = Inr mid"
      and p: "press_calls kb' = press_calls mid" for before after mid
  proof -
    from run_step [OF sp, of press before] m have "spaced mid" by simp
    from run_step [OF this, of press after]
    obtain k where k: "run press after mid = Inr k" "continues mid k" by blast
    from r f m k(1) have "k = kb'" by (simp add: run_append)
    with k(2) p show ?thesis by (auto simp add: continues_def)
  qed
  from r w t show ?thesis by blast
qed

theorem one_event_per_debounce_window_witness:
  "0 \<le> key_press_delay initial_keyboard \<and> press_calls initial_keyboard = [] \<and>
   (\<exists>kb'. run (\<lambda>arg. Inr ()) [[pinch_over_Q 1], [pinch_over_Q 1.2], [pinch_over_Q 2]]
             initial_keyboard = Inr kb' \<and>
          length (filter (\<lambda>event. 1 \<le> fst event \<and> fst event \<le> 1 + key_press_delay initial_keyboard)
                    (press_calls kb')) \<le> 1)"
proof -
  have h: "0 \<le> key_press_delay initial_keyboard" "press_calls initial_keyboard = []"
    by (simp_all add: initial_keyboard_def)
  from one_event_per_debounce_window [OF h, of "\<lambda>arg. Inr ()"
      "[[pinch_over_Q 1], [pinch_over_Q 1.2], [pinch_over_Q 2]]" 1] h
  show ?thesis by blast
qed

section \<open>Construction\<close>



end
